theory Spec2Isabelle
  imports Main "HOL-Library.Sublist"
begin

section \<open>The VASP drone of atomate2 (\<open>src/atomate2/vasp/drones.py\<close>)\<close>

text \<open>
  The module holds one class, \<open>VaspDrone\<close>, with two methods.
  \<open>get_valid_paths\<close> classifies one node \<open>(parent, subdirs, files)\<close> of an
  \<open>os.walk\<close> traversal; \<open>assimilate\<close> hands a directory to
  \<open>TaskDocument.from_directory\<close> and logs a failure before raising it again.
  Python strings are modelled as \<open>string\<close>, lists as lists, a raised exception as the
  left summand of a sum type, and the two effects of the module (reading a directory,
  writing to the module's logger) as explicit traces.
\<close>

subsection \<open>Strings\<close>

text \<open>\<open>os.sep\<close> on a POSIX system.\<close>

definition os_sep :: string where
  "os_sep = ''/''"

text \<open>
  \<open>str.endswith\<close> and \<open>str.startswith\<close>: the last (first) \<open>len(affix)\<close> characters
  of the string are compared with the affix.
\<close>

definition endswith :: "string \<Rightarrow> string \<Rightarrow> bool" where
  "endswith s suf = (length suf \<le> length s \<and> drop (length s - length suf) s = suf)"

definition startswith :: "string \<Rightarrow> string \<Rightarrow> bool" where
  "startswith s pre = (take (length pre) s = pre)"

text \<open>The decimal rendering of a natural number, as an f-string \<open>{i}\<close> produces it.\<close>

fun str_nat :: "nat \<Rightarrow> string" where
  "str_nat n =
     (if n < 10 then [''0123456789'' ! n]
      else str_nat (n div 10) @ [''0123456789'' ! (n mod 10)])"

declare str_nat.simps [simp del]

text \<open>The builtin \<open>any\<close> on a list of truth values.\<close>

primrec any :: "bool list \<Rightarrow> bool" where
  "any [] = False"
| "any (b # bs) = (b \<or> any bs)"

subsection \<open>The file system as \<open>Path.glob\<close> sees it\<close>

text \<open>
  \<open>pathlib\<close> is not part of the repository. Its \<open>Path(parent).glob(pattern)\<close>, for a
  pattern of a single segment, scans the directory and keeps the entries whose names
  match the pattern; a path that is no directory yields nothing, and a failure of the
  operating system that \<open>pathlib\<close> does not absorb is raised to the caller.
  A file system is therefore a table from directory paths to the outcome of scanning
  them: the names of the entries, or the error raised. A path that is not in the table
  is not a directory.
\<close>

datatype os_error = OSError nat

type_synonym filesystem = "(string \<times> (os_error + string list)) list"

definition scandir :: "filesystem \<Rightarrow> string \<Rightarrow> os_error + string list" where
  "scandir fs d = (case map_of fs d of None \<Rightarrow> Inr [] | Some r \<Rightarrow> r)"

text \<open>
  Shell-style matching of a name against a pattern: \<open>*\<close> stands for any run of
  characters, \<open>?\<close> for one character, every other character for itself (bracket
  classes do not occur in the pattern this module uses).
\<close>

fun fnmatch :: "string \<Rightarrow> string \<Rightarrow> bool" where
  "fnmatch [] [] = True"
| "fnmatch (c # cs) [] = False"
| "fnmatch [] (p # ps) = (p = CHR ''*'' \<and> fnmatch [] ps)"
| "fnmatch (c # cs) (p # ps) =
     (if p = CHR ''*'' then fnmatch (c # cs) ps \<or> fnmatch cs (p # ps)
      else (p = CHR ''?'' \<or> p = c) \<and> fnmatch cs ps)"

definition glob :: "filesystem \<Rightarrow> string \<Rightarrow> string \<Rightarrow> os_error + string list" where
  "glob fs d pattern =
     (case scandir fs d of
        Inl e \<Rightarrow> Inl e
      | Inr names \<Rightarrow> Inr (filter (\<lambda>n. fnmatch n pattern) names))"

text \<open>One entry of the trace of file-system accesses: the directory and the pattern.\<close>

datatype fs_access = Glob string string

subsection \<open>\<open>VaspDrone.get_valid_paths\<close>\<close>

text \<open>
  \<open>task_names = ["precondition"] + [f"relax{i}" for i in range(9)]\<close>
\<close>

definition task_names :: "string list" where
  "task_names = [''precondition''] @ map (\<lambda>i. ''relax'' @ str_nat i) [0..<9]"

text \<open>
  The method returns a list of paths or raises what the glob raises; the second
  component of the result is the trace of file-system accesses it made. The glob is
  the right operand of \<open>and\<close>: it is evaluated only when the left operand is true.
\<close>

fun get_valid_paths ::
  "filesystem \<Rightarrow> string \<times> string list \<times> string list \<Rightarrow>
     (os_error + string list) \<times> fs_access list" where
  "get_valid_paths fs (parent, subdirs, _) =
     (if set task_names \<inter> set subdirs \<noteq> {} then (Inr [parent], [])
      else if \<not> any (map (\<lambda>r. endswith parent (os_sep @ r)) task_names) then
        (case glob fs parent ''vasprun.xml*'' of
           Inl e \<Rightarrow> (Inl e, [Glob parent ''vasprun.xml*''])
         | Inr found \<Rightarrow>
             (if length found > 0 then (Inr [parent], [Glob parent ''vasprun.xml*''])
              else (Inr [], [Glob parent ''vasprun.xml*''])))
      else (Inr [], []))"

subsection \<open>\<open>VaspDrone.assimilate\<close>\<close>

text \<open>
  What \<open>TaskDocument.from_directory\<close> raises is either an instance of \<open>Exception\<close>,
  which the handler \<open>except Exception\<close> catches, or one of the system-exiting
  exceptions (\<open>KeyboardInterrupt\<close>, \<open>SystemExit\<close>, \<open>GeneratorExit\<close>), which derive
  from \<open>BaseException\<close> only and pass the handler by.
\<close>

datatype ('e, 'b) raised = Exception 'e | SystemExiting 'b

datatype level = DEBUG | INFO | WARNING | ERROR | CRITICAL

text \<open>The drone holds the keyword arguments it was constructed with.\<close>

record 'k VaspDrone =
  task_document_kwargs :: 'k

text \<open>
  The collaborators of \<open>assimilate\<close> that live outside the module: the current working
  directory (\<open>Path.cwd()\<close>), the rendering of \<open>Path(path).absolute()\<close>, the parser
  \<open>TaskDocument.from_directory\<close>, and \<open>traceback.format_exc()\<close> for the exception being
  handled.
\<close>

record ('k, 'd, 'e, 'b) environment =
  cwd :: string
  absolute :: "string \<Rightarrow> string"
  from_directory :: "string \<Rightarrow> 'k \<Rightarrow> ('e, 'b) raised + 'd"
  format_exc :: "'e \<Rightarrow> string"

text \<open>
  The effects of \<open>assimilate\<close>: the calls made to the parser (path and keyword
  arguments) and the records handed to the module's logger (level and message), both
  in order.
\<close>

record 'k effects =
  parser_calls :: "(string \<times> 'k) list"
  logged :: "(level \<times> string) list"

definition assimilate ::
  "('k, 'd, 'e, 'b) environment \<Rightarrow> 'k VaspDrone \<Rightarrow> string option \<Rightarrow> 'k effects \<Rightarrow>
     (('e, 'b) raised + 'd) \<times> 'k effects" where
  "assimilate env self path w =
     (let path = (case path of None \<Rightarrow> cwd env | Some p \<Rightarrow> p);
          w = w\<lparr>parser_calls := parser_calls w @ [(path, task_document_kwargs self)]\<rparr>
      in case from_directory env path (task_document_kwargs self) of
           Inr doc \<Rightarrow> (Inr doc, w)
         | Inl (Exception e) \<Rightarrow>
             (Inl (Exception e),
              w\<lparr>logged := logged w @
                 [(ERROR, ''Error in '' @ absolute env path @ [CHR 0x0A] @ format_exc env e)]\<rparr>)
         | Inl (SystemExiting b) \<Rightarrow> (Inl (SystemExiting b), w))"

subsection \<open>The final path segment\<close>

text \<open>
  The specification speaks of the final path segment of \<open>parent\<close>: the text after the
  last separator, the whole string when it holds no separator. The code never computes
  it; the definition serves to compare the code's suffix test with it.
\<close>

definition last_segment :: "string \<Rightarrow> string" where
  "last_segment p = rev (takeWhile (\<lambda>c. c \<noteq> CHR ''/'') (rev p))"

subsection \<open>Example inputs\<close>

text \<open>
  An environment for \<open>assimilate\<close>: the parser knows one directory with output files
  and fails on every other path.
\<close>

definition example_env :: "(unit, string, string, unit) environment" where
  "example_env =
     \<lparr>cwd = ''/home/user'',
      absolute = (\<lambda>p. if startswith p ''/'' then p else ''/home/user/'' @ p),
      from_directory =
        (\<lambda>p k. if p = ''/home/user'' then Inr ''TaskDocument''
               else Inl (Exception ''FileNotFoundError'')),
      format_exc = (\<lambda>e. ''Traceback (most recent call last): '' @ e)\<rparr>"

definition no_effects :: "unit effects" where
  "no_effects = \<lparr>parser_calls = [], logged = []\<rparr>"

text \<open>An environment whose parser is interrupted from the keyboard on every path.\<close>

definition interrupted_env :: "(unit, string, string, string) environment" where
  "interrupted_env =
     \<lparr>cwd = ''/home/user'',
      absolute = (\<lambda>p. if startswith p ''/'' then p else ''/home/user/'' @ p),
      from_directory = (\<lambda>p k. Inl (SystemExiting ''KeyboardInterrupt'')),
      format_exc = (\<lambda>e. ''Traceback (most recent call last): '' @ e)\<rparr>"

section \<open>Properties\<close>

subsection \<open>Strings and patterns\<close>

lemma task_names_list:
  "task_names = [''precondition'', ''relax0'', ''relax1'', ''relax2'', ''relax3'',
     ''relax4'', ''relax5'', ''relax6'', ''relax7'', ''relax8'']"
  unfolding task_names_def by (simp add: upt_rec str_nat.simps)

lemma endswith_suffix: "endswith s suf \<longleftrightarrow> suffix suf s"
proof
  assume "endswith s suf"
  then have "s = take (length s - length suf) s @ suf"
    unfolding endswith_def by (metis append_take_drop_id)
  then show "suffix suf s" unfolding suffix_def by blast
next
  assume "suffix suf s"
  then obtain zs where "s = zs @ suf" unfolding suffix_def by blast
  then show "endswith s suf" unfolding endswith_def by simp
qed

lemma startswith_prefix: "startswith s pre \<longleftrightarrow> prefix pre s"
proof
  assume "startswith s pre"
  then have "s = pre @ drop (length pre) s"
    unfolding startswith_def by (metis append_take_drop_id)
  then show "prefix pre s" unfolding prefix_def by blast
next
  assume "prefix pre s"
  then obtain zs where "s = pre @ zs" unfolding prefix_def by blast
  then show "startswith s pre" unfolding startswith_def by simp
qed

lemma any_map: "any (map f xs) \<longleftrightarrow> (\<exists>x\<in>set xs. f x)"
  by (induction xs) auto

lemma fnmatch_star: "fnmatch n ''*''"
  by (induction n) auto

text \<open>A pattern of literal characters followed by one star matches by prefix.\<close>

lemma fnmatch_literal_star:
  "CHR ''*'' \<notin> set lit \<Longrightarrow> CHR ''?'' \<notin> set lit \<Longrightarrow>
     fnmatch n (lit @ ''*'') \<longleftrightarrow> startswith n lit"
proof (induction lit arbitrary: n)
  case Nil
  show ?case using fnmatch_star by (simp add: startswith_def)
next
  case (Cons a lit)
  show ?case
  proof (cases n)
    case Nil
    with Cons.prems show ?thesis by (auto simp: startswith_def)
  next
    case (Cons c cs)
    with Cons.prems Cons.IH [of cs] show ?thesis
      by (auto simp: startswith_def)
  qed
qed

lemma fnmatch_vasprun: "fnmatch n ''vasprun.xml*'' \<longleftrightarrow> startswith n ''vasprun.xml''"
  using fnmatch_literal_star [of "''vasprun.xml''" n] by simp

subsection \<open>The suffix test and the final path segment\<close>

lemma last_segment_append:
  assumes "CHR ''/'' \<notin> set r"
  shows "last_segment (d @ ''/'' @ r) = r"
proof -
  have "takeWhile (\<lambda>c. c \<noteq> CHR ''/'') (rev r @ CHR ''/'' # rev d) = rev r"
    using assms by (subst takeWhile_append2) auto
  then show ?thesis unfolding last_segment_def by simp
qed

lemma endswith_last_segment:
  assumes "endswith p (os_sep @ r)" and "CHR ''/'' \<notin> set r"
  shows "last_segment p = r \<and> CHR ''/'' \<in> set p"
proof -
  from assms(1) have "suffix (os_sep @ r) p" by (simp only: endswith_suffix)
  then obtain d where "p = d @ os_sep @ r" unfolding suffix_def by blast
  then have p: "p = d @ ''/'' @ r" by (simp add: os_sep_def)
  have "last_segment p = r"
    unfolding p by (rule last_segment_append [OF assms(2)])
  moreover have "CHR ''/'' \<in> set p" unfolding p by simp
  ultimately show ?thesis by simp
qed

lemma sep_last_segment:
  assumes "CHR ''/'' \<in> set p"
  shows "endswith p (os_sep @ last_segment p)"
proof -
  let ?P = "\<lambda>c. c \<noteq> CHR ''/''"
  let ?d = "dropWhile ?P (rev p)"
  have ne: "?d \<noteq> []" using assms by simp
  from hd_dropWhile [OF ne] have h: "hd ?d = CHR ''/''" by simp
  from list.collapse [OF ne] have "hd ?d # tl ?d = ?d" .
  with h have d: "CHR ''/'' # tl ?d = ?d" by (simp only:)
  have "rev p = takeWhile ?P (rev p) @ CHR ''/'' # tl ?d"
    by (subst d) simp
  then have "rev (rev p) = rev (takeWhile ?P (rev p) @ CHR ''/'' # tl ?d)"
    by (rule arg_cong)
  then have "p = rev (tl ?d) @ os_sep @ last_segment p"
    unfolding last_segment_def os_sep_def by simp
  then have "suffix (os_sep @ last_segment p) p" unfolding suffix_def by blast
  then show ?thesis by (simp only: endswith_suffix)
qed

lemma task_names_no_sep: "r \<in> set task_names \<Longrightarrow> CHR ''/'' \<notin> set r"
  unfolding task_names_list by auto

text \<open>
  The test of the second rule, \<open>any([parent.endswith(os.sep + r) for r in task_names])\<close>,
  holds exactly when \<open>parent\<close> holds a separator and its final segment is reserved.
\<close>

lemma named_as_task_iff:
  "any (map (\<lambda>r. endswith p (os_sep @ r)) task_names) \<longleftrightarrow>
     CHR ''/'' \<in> set p \<and> last_segment p \<in> set task_names"
proof
  assume "any (map (\<lambda>r. endswith p (os_sep @ r)) task_names)"
  then obtain r where r: "r \<in> set task_names" "endswith p (os_sep @ r)"
    unfolding any_map by blast
  from endswith_last_segment [OF r(2) task_names_no_sep [OF r(1)]] r(1)
  show "CHR ''/'' \<in> set p \<and> last_segment p \<in> set task_names" by simp
next
  assume "CHR ''/'' \<in> set p \<and> last_segment p \<in> set task_names"
  then show "any (map (\<lambda>r. endswith p (os_sep @ r)) task_names)"
    unfolding any_map using sep_last_segment by blast
qed

lemma glob_vasprun:
  "glob fs d ''vasprun.xml*'' =
     (case scandir fs d of
        Inl e \<Rightarrow> Inl e
      | Inr names \<Rightarrow> Inr (filter (\<lambda>n. startswith n ''vasprun.xml'') names))"
  unfolding glob_def fnmatch_vasprun by (rule refl)

subsection \<open>Classification\<close>

text \<open>
  C1. When the immediate subdirectories meet the reserved names, the classifier returns
  the list holding \<open>parent\<close> alone, whatever the \<open>files\<close> component is and whatever the
  directory itself contains: the first rule is tested first and decides.
\<close>

theorem container_rule_first:
  "set task_names \<inter> set subdirs \<noteq> {} \<Longrightarrow>
     fst (get_valid_paths fs (parent, subdirs, files)) = Inr [parent]"
  by simp

theorem container_rule_first_witness:
  "set task_names \<inter> set [''relax0'', ''relax1''] \<noteq> {} \<and>
   glob [(''/run'', Inr [''vasprun.xml''])] ''/run'' ''vasprun.xml*'' = Inr [''vasprun.xml''] \<and>
   fst (get_valid_paths [(''/run'', Inr [''vasprun.xml''])]
          (''/run'', [''relax0'', ''relax1''], [''INCAR''])) = Inr [''/run'']"
proof -
  have h: "set task_names \<inter> set [''relax0'', ''relax1''] \<noteq> {}"
    unfolding task_names_list by simp
  have g: "glob [(''/run'', Inr [''vasprun.xml''])] ''/run'' ''vasprun.xml*'' = Inr [''vasprun.xml'']"
    by (simp add: glob_def scandir_def)
  from h g container_rule_first [OF h, of "[(''/run'', Inr [''vasprun.xml''])]" "''/run''" "[''INCAR'']"]
  show ?thesis by (simp only: simp_thms)
qed

text \<open>
  C2, as amended. The second rule excludes \<open>parent\<close> by the suffix test
  \<open>parent.endswith(os.sep + r)\<close>. When the subdirectories miss the reserved names and
  \<open>parent\<close> holds a separator and has a reserved final segment, the classifier returns
  the empty list without looking at the directory, so also when it holds
  \<open>vasprun.xml*\<close> files. The test holds exactly when \<open>parent\<close> holds a separator and
  its final segment equals a reserved name: a final segment \<open>myrelax0\<close> is not
  excluded, and neither is a parent of a single component, which holds no separator.
\<close>

theorem self_name_exclusion:
  "(set task_names \<inter> set subdirs = {} \<and> CHR ''/'' \<in> set parent \<and>
      last_segment parent \<in> set task_names \<longrightarrow>
      get_valid_paths fs (parent, subdirs, files) = (Inr [], [])) \<and>
   (any (map (\<lambda>r. endswith parent (os_sep @ r)) task_names) \<longleftrightarrow>
      CHR ''/'' \<in> set parent \<and> last_segment parent \<in> set task_names) \<and>
   \<not> any (map (\<lambda>r. endswith (d @ ''/myrelax0'') (os_sep @ r)) task_names)"
proof (intro conjI impI)
  assume "set task_names \<inter> set subdirs = {} \<and> CHR ''/'' \<in> set parent \<and>
      last_segment parent \<in> set task_names"
  then show "get_valid_paths fs (parent, subdirs, files) = (Inr [], [])"
    by (simp add: named_as_task_iff)
next
  show "any (map (\<lambda>r. endswith parent (os_sep @ r)) task_names) \<longleftrightarrow>
      CHR ''/'' \<in> set parent \<and> last_segment parent \<in> set task_names"
    by (rule named_as_task_iff)
next
  have "last_segment (d @ ''/'' @ ''myrelax0'') = ''myrelax0''"
    by (rule last_segment_append) simp
  then have "last_segment (d @ ''/myrelax0'') \<notin> set task_names"
    by (simp add: task_names_list)
  then show "\<not> any (map (\<lambda>r. endswith (d @ ''/myrelax0'') (os_sep @ r)) task_names)"
    by (simp only: named_as_task_iff simp_thms)
qed

theorem self_name_exclusion_witness:
  "set task_names \<inter> set [] = {} \<and> CHR ''/'' \<in> set ''/run/relax0'' \<and>
   last_segment ''/run/relax0'' \<in> set task_names \<and>
   glob [(''/run/relax0'', Inr [''vasprun.xml''])] ''/run/relax0'' ''vasprun.xml*'' = Inr [''vasprun.xml''] \<and>
   get_valid_paths [(''/run/relax0'', Inr [''vasprun.xml''])]
     (''/run/relax0'', [], [''vasprun.xml'']) = (Inr [], [])"
proof -
  have h: "set task_names \<inter> set [] = {} \<and> CHR ''/'' \<in> set ''/run/relax0'' \<and>
      last_segment ''/run/relax0'' \<in> set task_names"
    by (simp add: task_names_list last_segment_def)
  have g: "glob [(''/run/relax0'', Inr [''vasprun.xml''])] ''/run/relax0'' ''vasprun.xml*'' = Inr [''vasprun.xml'']"
    by (simp add: glob_def scandir_def)
  from self_name_exclusion [of "[]" "''/run/relax0''" "[(''/run/relax0'', Inr [''vasprun.xml''])]" "[''vasprun.xml'']" "[]"]
  have "set task_names \<inter> set [] = {} \<and> CHR ''/'' \<in> set ''/run/relax0'' \<and>
      last_segment ''/run/relax0'' \<in> set task_names \<longrightarrow>
      get_valid_paths [(''/run/relax0'', Inr [''vasprun.xml''])]
     (''/run/relax0'', [], [''vasprun.xml'']) = (Inr [], [])" by (rule conjunct1)
  with h g show ?thesis by (simp only: simp_thms)
qed

text \<open>
  C2 as stated fails for a parent of a single component: the relative path \<open>relax0\<close>
  has a reserved final segment and no reserved subdirectory, and with a \<open>vasprun.xml\<close>
  inside it the classifier accepts it.
\<close>

theorem self_name_counterexample:
  "last_segment ''relax0'' \<in> set task_names \<and>
   set task_names \<inter> set [] = {} \<and>
   glob [(''relax0'', Inr [''vasprun.xml''])] ''relax0'' ''vasprun.xml*'' = Inr [''vasprun.xml''] \<and>
   fst (get_valid_paths [(''relax0'', Inr [''vasprun.xml''])] (''relax0'', [], [''vasprun.xml''])) = Inr [''relax0''] \<and>
   fst (get_valid_paths [(''relax0'', Inr [''vasprun.xml''])] (''relax0'', [], [''vasprun.xml''])) \<noteq> Inr []"
  by (simp add: task_names_list last_segment_def endswith_def os_sep_def glob_def scandir_def)

text \<open>
  C3. When the subdirectories miss the reserved names, the final segment of \<open>parent\<close>
  is not reserved and the directory holds an entry whose name starts with
  \<open>vasprun.xml\<close> (any suffix may follow), the classifier returns the list holding
  \<open>parent\<close> alone.
\<close>

theorem leaf_output_rule:
  assumes "set task_names \<inter> set subdirs = {}"
    and "last_segment parent \<notin> set task_names"
    and "scandir fs parent = Inr names"
    and "n \<in> set names" and "startswith n ''vasprun.xml''"
  shows "fst (get_valid_paths fs (parent, subdirs, files)) = Inr [parent]"
proof -
  have ex: "\<not> any (map (\<lambda>r. endswith parent (os_sep @ r)) task_names)"
    using assms(2) by (simp only: named_as_task_iff simp_thms)
  have "filter (\<lambda>n. startswith n ''vasprun.xml'') names \<noteq> []"
    using assms(4,5) by (auto simp only: filter_empty_conv)
  then obtain found where g: "glob fs parent ''vasprun.xml*'' = Inr found" and "found \<noteq> []"
    unfolding glob_vasprun assms(3) by simp
  with assms(1) ex show ?thesis by simp
qed

theorem leaf_output_rule_witness:
  "set task_names \<inter> set [] = {} \<and> last_segment ''/run/final'' \<notin> set task_names \<and>
   scandir [(''/run/final'', Inr [''OUTCAR'', ''vasprun.xml.gz''])] ''/run/final'' = Inr [''OUTCAR'', ''vasprun.xml.gz''] \<and>
   ''vasprun.xml.gz'' \<in> set [''OUTCAR'', ''vasprun.xml.gz''] \<and>
   startswith ''vasprun.xml.gz'' ''vasprun.xml'' \<and>
   fst (get_valid_paths [(''/run/final'', Inr [''OUTCAR'', ''vasprun.xml.gz''])]
     (''/run/final'', [], [''OUTCAR'', ''vasprun.xml.gz''])) = Inr [''/run/final'']"
proof -
  have h1: "set task_names \<inter> set [] = {}" by simp
  have h2: "last_segment ''/run/final'' \<notin> set task_names"
    by (simp add: task_names_list last_segment_def)
  have h3: "scandir [(''/run/final'', Inr [''OUTCAR'', ''vasprun.xml.gz''])] ''/run/final'' = Inr [''OUTCAR'', ''vasprun.xml.gz'']"
    by (simp add: scandir_def)
  have h4: "''vasprun.xml.gz'' \<in> set [''OUTCAR'', ''vasprun.xml.gz'']" by simp
  have h5: "startswith ''vasprun.xml.gz'' ''vasprun.xml''" by (simp add: startswith_def)
  from h1 h2 h3 h4 h5 leaf_output_rule [OF h1 h2 h3 h4 h5, of "[''OUTCAR'', ''vasprun.xml.gz'']"]
  show ?thesis by (simp only: simp_thms)
qed

text \<open>
  C4, as amended. The second rule, as the code tests it, applies when \<open>parent\<close> does not
  end with a separator followed by a reserved name (it holds no separator, or its final
  segment is not reserved) and the glob finds an entry of the directory, a file or a
  subdirectory, whose name matches \<open>vasprun.xml*\<close>. When neither rule applies, that is,
  the subdirectories miss the reserved names and either \<open>parent\<close> holds a separator and
  has a reserved final segment or the glob finds no entry, the classifier returns the
  empty list. Whenever it returns, the result is the empty list or the list holding
  \<open>parent\<close> alone; the only other outcome is that it raises the error of scanning
  \<open>parent\<close>.
\<close>

theorem rejection_and_result_shape:
  "(set task_names \<inter> set subdirs = {} \<and>
      (CHR ''/'' \<in> set parent \<and> last_segment parent \<in> set task_names \<or>
       glob fs parent ''vasprun.xml*'' = Inr []) \<longrightarrow>
      fst (get_valid_paths fs (parent, subdirs, files)) = Inr []) \<and>
   (fst (get_valid_paths fs (parent, subdirs, files)) = Inr [] \<or>
    fst (get_valid_paths fs (parent, subdirs, files)) = Inr [parent] \<or>
    (\<exists>e. fst (get_valid_paths fs (parent, subdirs, files)) = Inl e \<and>
         scandir fs parent = Inl e))"
proof (intro conjI impI)
  assume "set task_names \<inter> set subdirs = {} \<and>
      (CHR ''/'' \<in> set parent \<and> last_segment parent \<in> set task_names \<or>
       glob fs parent ''vasprun.xml*'' = Inr [])"
  then have "set task_names \<inter> set subdirs = {}"
    and "any (map (\<lambda>r. endswith parent (os_sep @ r)) task_names) \<or>
       glob fs parent ''vasprun.xml*'' = Inr []"
    by (simp_all only: named_as_task_iff)
  then show "fst (get_valid_paths fs (parent, subdirs, files)) = Inr []"
    by auto
next
  show "fst (get_valid_paths fs (parent, subdirs, files)) = Inr [] \<or>
    fst (get_valid_paths fs (parent, subdirs, files)) = Inr [parent] \<or>
    (\<exists>e. fst (get_valid_paths fs (parent, subdirs, files)) = Inl e \<and>
         scandir fs parent = Inl e)"
  proof (cases "glob fs parent ''vasprun.xml*''")
    case (Inl e)
    then have "scandir fs parent = Inl e"
      unfolding glob_def by (simp split: sum.splits)
    with Inl show ?thesis by simp
  next
    case (Inr found)
    then show ?thesis by simp
  qed
qed

theorem rejection_and_result_shape_witness:
  "set task_names \<inter> set [] = {} \<and>
   glob [] ''/empty'' ''vasprun.xml*'' = Inr [] \<and>
   fst (get_valid_paths [] (''/empty'', [], [])) = Inr [] \<and>
   CHR ''/'' \<in> set ''/run/relax3'' \<and> last_segment ''/run/relax3'' \<in> set task_names \<and>
   fst (get_valid_paths [(''/run/relax3'', Inr [''vasprun.xml.gz''])]
          (''/run/relax3'', [], [''vasprun.xml.gz''])) = Inr []"
proof -
  have g: "glob [] ''/empty'' ''vasprun.xml*'' = Inr []"
    by (simp add: glob_def scandir_def)
  have n: "set task_names \<inter> set [] = {}" by simp
  have s: "CHR ''/'' \<in> set ''/run/relax3'' \<and> last_segment ''/run/relax3'' \<in> set task_names"
    by (simp add: task_names_list last_segment_def)
  from rejection_and_result_shape [of "[]" "''/empty''" "[]" "[]"] n g
  have a: "fst (get_valid_paths [] (''/empty'', [], [])) = Inr []"
    by (simp only: simp_thms)
  from rejection_and_result_shape [of "[]" "''/run/relax3''"
      "[(''/run/relax3'', Inr [''vasprun.xml.gz''])]" "[''vasprun.xml.gz'']"] n s
  have b: "fst (get_valid_paths [(''/run/relax3'', Inr [''vasprun.xml.gz''])]
          (''/run/relax3'', [], [''vasprun.xml.gz''])) = Inr []"
    by (simp only: simp_thms)
  from n g a s b show ?thesis by (simp only: simp_thms)
qed

text \<open>
  C4 as stated, with the second rule read as the specification words it (the final
  segment of \<open>parent\<close> is not reserved and the directory holds a matching file), fails
  for a parent of a single component: for the relative path \<open>relax0\<close> with no
  subdirectory the first rule does not apply, the final segment is reserved, so the
  second rule as worded does not apply either, and yet the classifier globs the
  directory and returns the list holding \<open>parent\<close>, because a \<open>vasprun.xml\<close> is there.
\<close>

theorem rejection_counterexample:
  "set task_names \<inter> set [] = {} \<and>
   last_segment ''relax0'' \<in> set task_names \<and>
   get_valid_paths [(''relax0'', Inr [''vasprun.xml''])] (''relax0'', [], [''vasprun.xml'']) =
     (Inr [''relax0''], [Glob ''relax0'' ''vasprun.xml*'']) \<and>
   fst (get_valid_paths [(''relax0'', Inr [''vasprun.xml''])] (''relax0'', [], [''vasprun.xml'']))
     \<noteq> Inr []"
  by (simp add: task_names_list last_segment_def endswith_def os_sep_def glob_def scandir_def)

text \<open>
  C5. The reserved names are \<open>precondition\<close> and \<open>relax0\<close> to \<open>relax8\<close>, ten names
  in all. \<open>relax9\<close> is not among them: a subdirectory \<open>relax9\<close> does not make the
  first rule apply, and a parent whose final segment is \<open>relax9\<close> is accepted by the
  second rule when it holds a \<open>vasprun.xml\<close>. (The docstring of the method speaks of
  \<open>relax1\<close> to \<open>relax9\<close>.)
\<close>

theorem reserved_names:
  "set task_names = {''precondition'', ''relax0'', ''relax1'', ''relax2'', ''relax3'',
      ''relax4'', ''relax5'', ''relax6'', ''relax7'', ''relax8''} \<and>
   length task_names = 10 \<and> distinct task_names \<and>
   ''relax9'' \<notin> set task_names \<and>
   get_valid_paths fs (parent, [''relax9''], files) = get_valid_paths fs (parent, [], files) \<and>
   fst (get_valid_paths [(d @ ''/relax9'', Inr [''vasprun.xml''])] (d @ ''/relax9'', [], files))
     = Inr [d @ ''/relax9'']"
proof (intro conjI)
  show "set task_names = {''precondition'', ''relax0'', ''relax1'', ''relax2'', ''relax3'',
      ''relax4'', ''relax5'', ''relax6'', ''relax7'', ''relax8''}"
    unfolding task_names_list by simp
  show "length task_names = 10" unfolding task_names_list by simp
  show "distinct task_names" unfolding task_names_list by simp
  show "''relax9'' \<notin> set task_names" unfolding task_names_list by simp
  have "set task_names \<inter> set [''relax9''] = {}" unfolding task_names_list by simp
  then show "get_valid_paths fs (parent, [''relax9''], files) = get_valid_paths fs (parent, [], files)"
    by simp
  have "last_segment (d @ ''/'' @ ''relax9'') = ''relax9''"
    by (rule last_segment_append) simp
  then have "last_segment (d @ ''/relax9'') \<notin> set task_names"
    by (simp add: task_names_list)
  moreover have "scandir [(d @ ''/relax9'', Inr [''vasprun.xml''])] (d @ ''/relax9'') = Inr [''vasprun.xml'']"
    by (simp add: scandir_def)
  moreover have "startswith ''vasprun.xml'' ''vasprun.xml''" by (simp add: startswith_def)
  ultimately show "fst (get_valid_paths [(d @ ''/relax9'', Inr [''vasprun.xml''])] (d @ ''/relax9'', [], files))
     = Inr [d @ ''/relax9'']"
    by (simp add: named_as_task_iff glob_vasprun)
qed

text \<open>
  C6. The classifier depends on the subdirectory list through its set of names only:
  two lists with the same names, in any order and with any repetitions, give the same
  result and the same accesses.
\<close>

theorem subdirs_order_independent:
  "set subdirs1 = set subdirs2 \<Longrightarrow>
     get_valid_paths fs (parent, subdirs1, files) = get_valid_paths fs (parent, subdirs2, files)"
  by simp

theorem subdirs_order_independent_witness:
  "set [''relax1'', ''static'', ''relax1'', ''relax0''] = set [''relax0'', ''relax1'', ''static''] \<and>
   get_valid_paths [] (''/run'', [''relax1'', ''static'', ''relax1'', ''relax0''], []) =
   get_valid_paths [] (''/run'', [''relax0'', ''relax1'', ''static''], []) \<and>
   get_valid_paths [] (''/run'', [''relax0'', ''relax1'', ''static''], []) = (Inr [''/run''], [])"
proof -
  have h: "set [''relax1'', ''static'', ''relax1'', ''relax0''] = set [''relax0'', ''relax1'', ''static'']"
    by auto
  have r: "get_valid_paths [] (''/run'', [''relax0'', ''relax1'', ''static''], []) = (Inr [''/run''], [])"
    by (simp add: task_names_list)
  from h r subdirs_order_independent [OF h, of "[]" "''/run''" "[]"]
  show ?thesis by (simp only: simp_thms)
qed

text \<open>
  C7. The \<open>files\<close> component of the input does not influence the classifier: two
  runs that differ in it alone return the same result and make the same accesses.
\<close>

theorem files_not_consulted:
  "get_valid_paths fs (parent, subdirs, files1) = get_valid_paths fs (parent, subdirs, files2)"
  by simp

text \<open>
  C10. When the first rule applies, the classifier makes no access to the file system
  and does not raise: its result is the one it gives on an empty file system, also when
  scanning \<open>parent\<close> would fail.
\<close>

theorem container_rule_no_filesystem_access:
  "set task_names \<inter> set subdirs \<noteq> {} \<Longrightarrow>
     snd (get_valid_paths fs (parent, subdirs, files)) = [] \<and>
     (\<forall>e. fst (get_valid_paths fs (parent, subdirs, files)) \<noteq> Inl e) \<and>
     get_valid_paths fs (parent, subdirs, files) = get_valid_paths [] (parent, subdirs, files)"
  by simp

theorem container_rule_no_filesystem_access_witness:
  "set task_names \<inter> set [''precondition''] \<noteq> {} \<and>
   scandir [(''/run'', Inl (OSError 13))] ''/run'' = Inl (OSError 13) \<and>
   get_valid_paths [(''/run'', Inl (OSError 13))] (''/run'', [''precondition''], []) =
     (Inr [''/run''], [])"
proof -
  have h: "set task_names \<inter> set [''precondition''] \<noteq> {}"
    unfolding task_names_list by simp
  have s: "scandir [(''/run'', Inl (OSError 13))] ''/run'' = Inl (OSError 13)"
    by (simp add: scandir_def)
  have "snd (get_valid_paths [(''/run'', Inl (OSError 13))] (''/run'', [''precondition''], [])) = []"
    using container_rule_no_filesystem_access [OF h, of "[(''/run'', Inl (OSError 13))]" "''/run''" "[]"]
    by (rule conjunct1)
  moreover have "fst (get_valid_paths [(''/run'', Inl (OSError 13))] (''/run'', [''precondition''], [])) = Inr [''/run'']"
    using h by simp
  ultimately have "get_valid_paths [(''/run'', Inl (OSError 13))] (''/run'', [''precondition''], []) =
     (Inr [''/run''], [])" by (simp add: prod_eq_iff)
  with h s show ?thesis by (simp only: simp_thms)
qed

text \<open>
  When the first rule does not apply and \<open>parent\<close> is not excluded, the error of the
  scan is what the classifier raises.
\<close>

lemma unreadable_directory_raises:
  "get_valid_paths [(''/run'', Inl (OSError 13))] (''/run'', [''static''], []) =
     (Inl (OSError 13), [Glob ''/run'' ''vasprun.xml*''])"
  by (simp add: task_names_list endswith_def os_sep_def glob_def scandir_def)

subsection \<open>Assimilation\<close>

text \<open>
  C8, as amended. Let \<open>p\<close> be the path handed to the parser. When the parser raises an
  instance \<open>e\<close> of \<open>Exception\<close>, \<open>assimilate\<close> calls the parser once, hands one record to
  the logger, of level \<open>ERROR\<close>, whose message holds the absolute form of \<open>p\<close> and the
  formatted traceback of \<open>e\<close>, and raises \<open>e\<close> itself. When the parser returns a
  document, \<open>assimilate\<close> returns that document and logs nothing. When the parser raises
  a system-exiting exception, which is no instance of \<open>Exception\<close>, \<open>assimilate\<close> raises
  it as it came and logs nothing. In every case the outcome of \<open>assimilate\<close> is the
  outcome of the parser: nothing raised is ever swallowed.
\<close>

theorem assimilate_logs_and_reraises:
  assumes "p = (case path of None \<Rightarrow> cwd env | Some q \<Rightarrow> q)"
    and "kwargs = task_document_kwargs self"
  shows
  "(from_directory env p kwargs = Inl (Exception e) \<longrightarrow>
      assimilate env self path w =
        (Inl (Exception e),
         w\<lparr>parser_calls := parser_calls w @ [(p, kwargs)],
           logged := logged w @
             [(ERROR, ''Error in '' @ absolute env p @ [CHR 0x0A] @ format_exc env e)]\<rparr>)) \<and>
   (from_directory env p kwargs = Inr doc \<longrightarrow>
      assimilate env self path w =
        (Inr doc, w\<lparr>parser_calls := parser_calls w @ [(p, kwargs)]\<rparr>)) \<and>
   (from_directory env p kwargs = Inl (SystemExiting b) \<longrightarrow>
      assimilate env self path w =
        (Inl (SystemExiting b), w\<lparr>parser_calls := parser_calls w @ [(p, kwargs)]\<rparr>)) \<and>
   fst (assimilate env self path w) = from_directory env p kwargs"
  using assms by (simp add: assimilate_def Let_def split: sum.splits raised.splits)

theorem assimilate_logs_and_reraises_witness:
  "from_directory example_env ''calc'' () = Inl (Exception ''FileNotFoundError'') \<and>
   assimilate example_env \<lparr>task_document_kwargs = ()\<rparr> (Some ''calc'') no_effects =
     (Inl (Exception ''FileNotFoundError''),
      \<lparr>parser_calls = [(''calc'', ())],
       logged = [(ERROR, ''Error in /home/user/calc'' @ [CHR 0x0A] @
                   ''Traceback (most recent call last): FileNotFoundError'')]\<rparr>) \<and>
   from_directory example_env ''/home/user'' () = Inr ''TaskDocument'' \<and>
   assimilate example_env \<lparr>task_document_kwargs = ()\<rparr> None no_effects =
     (Inr ''TaskDocument'', \<lparr>parser_calls = [(''/home/user'', ())], logged = []\<rparr>)"
proof -
  have h1: "from_directory example_env ''calc'' () = Inl (Exception ''FileNotFoundError'')"
    by (simp add: example_env_def)
  have h2: "from_directory example_env ''/home/user'' () = Inr ''TaskDocument''"
    by (simp add: example_env_def)
  have p1: "''calc'' = (case Some ''calc'' of None \<Rightarrow> cwd example_env | Some q \<Rightarrow> q)"
    by simp
  have p2: "''/home/user'' = (case None of None \<Rightarrow> cwd example_env | Some q \<Rightarrow> q)"
    by (simp add: example_env_def)
  have k: "() = task_document_kwargs \<lparr>task_document_kwargs = ()\<rparr>" by simp
  from assimilate_logs_and_reraises [OF p1 k, where e = "''FileNotFoundError''" and w = no_effects]
  have "from_directory example_env ''calc'' () = Inl (Exception ''FileNotFoundError'') \<longrightarrow>
      assimilate example_env \<lparr>task_document_kwargs = ()\<rparr> (Some ''calc'') no_effects =
        (Inl (Exception ''FileNotFoundError''),
         no_effects\<lparr>parser_calls := parser_calls no_effects @ [(''calc'', ())],
           logged := logged no_effects @
             [(ERROR, ''Error in '' @ absolute example_env ''calc'' @ [CHR 0x0A] @
                format_exc example_env ''FileNotFoundError'')]\<rparr>)"
    by (rule conjunct1)
  with h1 have a: "assimilate example_env \<lparr>task_document_kwargs = ()\<rparr> (Some ''calc'') no_effects =
     (Inl (Exception ''FileNotFoundError''),
      \<lparr>parser_calls = [(''calc'', ())],
       logged = [(ERROR, ''Error in /home/user/calc'' @ [CHR 0x0A] @
                   ''Traceback (most recent call last): FileNotFoundError'')]\<rparr>)"
    by (simp add: example_env_def no_effects_def startswith_def)
  from assimilate_logs_and_reraises [OF p2 k, where w = no_effects and doc = "''TaskDocument''"]
  have "from_directory example_env ''/home/user'' () = Inr ''TaskDocument'' \<longrightarrow>
      assimilate example_env \<lparr>task_document_kwargs = ()\<rparr> None no_effects =
        (Inr ''TaskDocument'',
         no_effects\<lparr>parser_calls := parser_calls no_effects @ [(''/home/user'', ())]\<rparr>)"
    by (rule conjunct1 [OF conjunct2])
  with h2 have b: "assimilate example_env \<lparr>task_document_kwargs = ()\<rparr> None no_effects =
     (Inr ''TaskDocument'', \<lparr>parser_calls = [(''/home/user'', ())], logged = []\<rparr>)"
    by (simp add: no_effects_def)
  from h1 a h2 b show ?thesis by (simp only: simp_thms)
qed

text \<open>
  C8 as stated, for any failure the parser raises, fails for the system-exiting
  exceptions: a parser interrupted from the keyboard raises \<open>KeyboardInterrupt\<close>, which
  \<open>except Exception\<close> does not catch, and \<open>assimilate\<close> raises it with nothing logged.
\<close>

theorem assimilate_unlogged_counterexample:
  "from_directory interrupted_env ''/calc'' () = Inl (SystemExiting ''KeyboardInterrupt'') \<and>
   assimilate interrupted_env \<lparr>task_document_kwargs = ()\<rparr> (Some ''/calc'') no_effects =
     (Inl (SystemExiting ''KeyboardInterrupt''),
      \<lparr>parser_calls = [(''/calc'', ())], logged = []\<rparr>) \<and>
   logged (snd (assimilate interrupted_env \<lparr>task_document_kwargs = ()\<rparr> (Some ''/calc'')
     no_effects)) = []"
  by (simp add: assimilate_def Let_def interrupted_env_def no_effects_def)

text \<open>
  C9. Without a path (\<open>None\<close>), \<open>assimilate\<close> behaves as with the current working
  directory as its path. Whatever the path is, the parser is called with it, once, and
  what \<open>assimilate\<close> returns or raises is what the parser returns or raises for it: no
  path is turned away before the parser sees it.
\<close>

theorem assimilate_default_path:
  "assimilate env self None w = assimilate env self (Some (cwd env)) w \<and>
   fst (assimilate env self None w) = from_directory env (cwd env) (task_document_kwargs self) \<and>
   parser_calls (snd (assimilate env self None w)) =
     parser_calls w @ [(cwd env, task_document_kwargs self)] \<and>
   fst (assimilate env self (Some p) w) = from_directory env p (task_document_kwargs self) \<and>
   parser_calls (snd (assimilate env self (Some p) w)) =
     parser_calls w @ [(p, task_document_kwargs self)]"
  by (simp add: assimilate_def Let_def split: sum.splits raised.splits)

end
